theory Spec2Isabelle
  imports Main "HOL-Library.Word"
begin

unbundle bit_operations_syntax

section \<open>JavaScript values and their string forms\<close>

text \<open>
  The values a spreadsheet cell hands to the script: \<open>null\<close>, \<open>undefined\<close>, text,
  numbers and booleans. Text is a list of code units (the Latin-1 range, which is what
  \<^typ>\<open>char\<close> holds); \<open>JNum n\<close> is the integer-valued number \<open>n\<close>, in the range
  where \<open>String\<close> prints a number in plain decimal digits.
\<close>

datatype jsval = JNull | JUndefined | JStr string | JNum int | JBool bool

datatype error = TypeError | SheetNotFound string

definition digit_char :: "nat \<Rightarrow> char" where
  "digit_char d = ''0123456789'' ! d"

fun string_of_nat :: "nat \<Rightarrow> string" where
  "string_of_nat n =
     (if n < 10 then [digit_char n] else string_of_nat (n div 10) @ [digit_char (n mod 10)])"

definition string_of_int :: "int \<Rightarrow> string" where
  "string_of_int i = (if i < 0 then CHR ''-'' # string_of_nat (nat (- i)) else string_of_nat (nat i))"

text \<open>\<open>String(value)\<close>: defined on every value.\<close>

fun String_js :: "jsval \<Rightarrow> string" where
  "String_js JNull = ''null''"
| "String_js JUndefined = ''undefined''"
| "String_js (JStr s) = s"
| "String_js (JNum n) = string_of_int n"
| "String_js (JBool b) = (if b then ''true'' else ''false'')"

text \<open>\<open>value.toString()\<close>: a property read on \<open>null\<close> or \<open>undefined\<close> throws.\<close>

fun toString_js :: "jsval \<Rightarrow> error + string" where
  "toString_js JNull = Inl TypeError"
| "toString_js JUndefined = Inl TypeError"
| "toString_js v = Inr (String_js v)"

text \<open>The guard \<open>value === null || value === undefined || value === ''\<close>.\<close>

definition is_empty_value :: "jsval \<Rightarrow> bool" where
  "is_empty_value v \<longleftrightarrow> v = JNull \<or> v = JUndefined \<or> v = JStr []"

section \<open>JavaScript's 32-bit integer operators\<close>

text \<open>
  Numbers are kept as \<^typ>\<open>int\<close>; the bitwise operators first wrap their operands to
  signed 32 bits (ToInt32) and give a signed 32-bit result.
\<close>

definition to_int32 :: "int \<Rightarrow> int" where
  "to_int32 x = sint (word_of_int x :: 32 word)"

definition js_bitand :: "int \<Rightarrow> int \<Rightarrow> int" where
  "js_bitand x y = sint ((word_of_int x :: 32 word) AND word_of_int y)"

definition js_shl :: "int \<Rightarrow> nat \<Rightarrow> int" where
  "js_shl x n = sint (push_bit (n mod 32) (word_of_int x :: 32 word))"

section \<open>The host's digest service\<close>

text \<open>
  \<open>Utilities.computeDigest(Utilities.DigestAlgorithm.MD5, str)\<close> belongs to the
  spreadsheet host, not to the script. It is modelled as MD5 (RFC 1321) of the UTF-8
  encoding of the string, and returns the sixteen bytes of the digest; the script sees
  each byte as a signed number (\<open>sint\<close>).
\<close>

definition md5_shifts :: "nat list" where
  "md5_shifts = [7,12,17,22,7,12,17,22,7,12,17,22,7,12,17,22,
                 5,9,14,20,5,9,14,20,5,9,14,20,5,9,14,20,
                 4,11,16,23,4,11,16,23,4,11,16,23,4,11,16,23,
                 6,10,15,21,6,10,15,21,6,10,15,21,6,10,15,21]"

definition md5_K :: "32 word list" where
  "md5_K = [0xd76aa478, 0xe8c7b756, 0x242070db, 0xc1bdceee,
  0xf57c0faf, 0x4787c62a, 0xa8304613, 0xfd469501,
  0x698098d8, 0x8b44f7af, 0xffff5bb1, 0x895cd7be,
  0x6b901122, 0xfd987193, 0xa679438e, 0x49b40821,
  0xf61e2562, 0xc040b340, 0x265e5a51, 0xe9b6c7aa,
  0xd62f105d, 0x02441453, 0xd8a1e681, 0xe7d3fbc8,
  0x21e1cde6, 0xc33707d6, 0xf4d50d87, 0x455a14ed,
  0xa9e3e905, 0xfcefa3f8, 0x676f02d9, 0x8d2a4c8a,
  0xfffa3942, 0x8771f681, 0x6d9d6122, 0xfde5380c,
  0xa4beea44, 0x4bdecfa9, 0xf6bb4b60, 0xbebfbc70,
  0x289b7ec6, 0xeaa127fa, 0xd4ef3085, 0x04881d05,
  0xd9d4d039, 0xe6db99e5, 0x1fa27cf8, 0xc4ac5665,
  0xf4292244, 0x432aff97, 0xab9423a7, 0xfc93a039,
  0x655b59c3, 0x8f0ccc92, 0xffeff47d, 0x85845dd1,
  0x6fa87e4f, 0xfe2ce6e0, 0xa3014314, 0x4e0811a1,
  0xf7537e82, 0xbd3af235, 0x2ad7d2bb, 0xeb86d391]"

type_synonym md5_state = "32 word \<times> 32 word \<times> 32 word \<times> 32 word"

definition rotl32 :: "nat \<Rightarrow> 32 word \<Rightarrow> 32 word" where
  "rotl32 n w = push_bit n w OR drop_bit (32 - n) w"

definition le_word :: "8 word list \<Rightarrow> 32 word" where
  "le_word bs = foldr (\<lambda>b acc. push_bit 8 acc OR ucast b) bs 0"

fun chunk_words :: "nat \<Rightarrow> 8 word list \<Rightarrow> 32 word list" where
  "chunk_words 0 bs = []"
| "chunk_words (Suc n) bs = le_word (take 4 bs) # chunk_words n (drop 4 bs)"

definition md5_round :: "32 word list \<Rightarrow> md5_state \<Rightarrow> nat \<Rightarrow> md5_state" where
  "md5_round M st i = (case st of (a, b, c, d) \<Rightarrow>
     let (f, g) =
       (if i < 16 then ((b AND c) OR (NOT b AND d), i)
        else if i < 32 then ((d AND b) OR (NOT d AND c), (5 * i + 1) mod 16)
        else if i < 48 then (b XOR c XOR d, (3 * i + 5) mod 16)
        else (c XOR (b OR NOT d), (7 * i) mod 16));
       f' = f + a + md5_K ! i + M ! g
     in (d, b + rotl32 (md5_shifts ! i) f', b, c))"

definition md5_chunk :: "md5_state \<Rightarrow> 8 word list \<Rightarrow> md5_state" where
  "md5_chunk st bs = (case st of (a0, b0, c0, d0) \<Rightarrow>
     case foldl (md5_round (chunk_words 16 bs)) st [0..<64] of (a, b, c, d) \<Rightarrow>
       (a0 + a, b0 + b, c0 + c, d0 + d))"

fun md5_chunks :: "nat \<Rightarrow> md5_state \<Rightarrow> 8 word list \<Rightarrow> md5_state" where
  "md5_chunks 0 st bs = st"
| "md5_chunks (Suc n) st bs = md5_chunks n (md5_chunk st (take 64 bs)) (drop 64 bs)"

definition md5_pad :: "8 word list \<Rightarrow> 8 word list" where
  "md5_pad bs = bs @ [0x80] @ replicate ((119 - length bs mod 64) mod 64) 0
       @ map (\<lambda>i. ucast (drop_bit (8 * i) (8 * of_nat (length bs) :: 64 word))) [0..<8]"

definition word_bytes :: "32 word \<Rightarrow> 8 word list" where
  "word_bytes w = map (\<lambda>i. ucast (drop_bit (8 * i) w)) [0..<4]"

definition md5 :: "8 word list \<Rightarrow> 8 word list" where
  "md5 bs = (let p = md5_pad bs in
     case md5_chunks (length p div 64) (0x67452301, 0xefcdab89, 0x98badcfe, 0x10325476) p
     of (a, b, c, d) \<Rightarrow> word_bytes a @ word_bytes b @ word_bytes c @ word_bytes d)"

definition utf8 :: "string \<Rightarrow> 8 word list" where
  "utf8 s = concat (map (\<lambda>c. let n = (of_char c :: nat) in
      if n < 128 then [of_nat n] else [of_nat (192 + n div 64), of_nat (128 + n mod 64)]) s)"

definition computeDigest :: "string \<Rightarrow> 8 word list" where
  "computeDigest str = md5 (utf8 str)"

text \<open>
  \<open>hashBytes[i]\<close> as the operand of \<open>&\<close>: the signed value of the byte; a read past the
  end of the array is \<open>undefined\<close>, which \<open>&\<close> treats as 0.
\<close>

definition byte_operand :: "8 word list \<Rightarrow> nat \<Rightarrow> int" where
  "byte_operand hashBytes i = (if i < length hashBytes then sint (hashBytes ! i) else 0)"

section \<open>The discrete pipeline (colour-by-value.js)\<close>

definition pastelColors :: "string list" where
  "pastelColors = [
    ''#FFB3BA'', ''#BAFFC9'', ''#BAE1FF'', ''#FFFFBA'', ''#FFB3FF'', ''#B3FFF9'',
    ''#FFD1BA'', ''#E5FFBA'', ''#BAC3FF'', ''#FFBAD4'', ''#BAFFCE'', ''#BAF0FF'',
    ''#FFF7BA'', ''#FFB3F1'', ''#B3FFE9'', ''#FFBAC9'', ''#D4FFBA'', ''#BAD6FF'',
    ''#FFE3BA'', ''#F1B3FF'', ''#B3FFF1'', ''#FFBABE'', ''#C3FFBA'', ''#BAFFFF'',
    ''#FFDEBA'', ''#E1B3FF'', ''#B3FFD6'', ''#FFC9BA'', ''#B3FFBA'', ''#BAE8FF'',
    ''#FFCEBA'', ''#D1B3FF'']"

definition darkShades :: "string list" where
  "darkShades = [
    ''#1A1A1A'', ''#2B2B2B'', ''#3C3C3C'', ''#4D4D4D'',
    ''#262626'', ''#333333'', ''#404040'', ''#595959'',
    ''#1F1F1F'', ''#2E2E2E'', ''#3D3D3D'', ''#4C4C4C'',
    ''#232323'', ''#303030'', ''#3E3E3E'', ''#4B4B4B'']"

text \<open>
  Each function returns, with its result, the strings it handed to the digest service,
  in call order.
\<close>

definition getColorFromValue :: "jsval \<Rightarrow> string list \<times> string" where
  "getColorFromValue v =
     (if v = JNull \<or> v = JUndefined \<or> v = JStr [] then ([], ''#FFFFFF'')
      else
        let str = String_js v;
            hashBytes = computeDigest str;
            colorIndex = js_bitand (byte_operand hashBytes 0) 0x1F
        in ([str], pastelColors ! nat colorIndex))"

definition getContrastColor :: "string \<Rightarrow> string list \<times> string" where
  "getContrastColor backgroundColor =
     (let hashBytes = computeDigest backgroundColor;
          colorIndex = js_bitand (byte_operand hashBytes 0) 0x0F
      in ([backgroundColor], darkShades ! nat colorIndex))"

record formatting =
  bold :: bool
  italic :: bool
  underline :: bool

definition getRandomFormatting :: "jsval \<Rightarrow> string list \<times> formatting" where
  "getRandomFormatting v =
     (if v = JNull \<or> v = JUndefined \<or> v = JStr []
      then ([], \<lparr>bold = False, italic = False, underline = False\<rparr>)
      else
        let str = String_js v;
            hashBytes = computeDigest str;
            boldByte = js_bitand (byte_operand hashBytes 1) 0xFF;
            italicByte = js_bitand (byte_operand hashBytes 2) 0xFF;
            underlineByte = js_bitand (byte_operand hashBytes 3) 0xFF
        in ([str], \<lparr>bold = boldByte < 102, italic = italicByte < 77, underline = underlineByte < 64\<rparr>))"

subsection \<open>What the script does to the host, as a trace\<close>

text \<open>
  The script's effects are kept as a list of events, in program order: a call of one of
  the style functions for a cell, a string handed to the digest service while working on
  a cell, and each write to a cell. The cell type is a parameter: colour-by-value.js
  addresses cells by row and column of the active range, the utility file by address.
\<close>

datatype computation =
  GetColorFromValue | GetContrastColor | GetRandomFormatting | GenerateColourFromValue

datatype 'c event =
    Compute 'c computation
  | Digest 'c string
  | SetValue 'c jsval
  | SetBackground 'c string
  | SetFontColor 'c string
  | SetFontWeight 'c string
  | SetFontStyle 'c string
  | SetFontLine 'c string
  | SetFontSize 'c string

fun cell_of :: "'c event \<Rightarrow> 'c" where
  "cell_of (Compute c f) = c"
| "cell_of (Digest c s) = c"
| "cell_of (SetValue c v) = c"
| "cell_of (SetBackground c s) = c"
| "cell_of (SetFontColor c s) = c"
| "cell_of (SetFontWeight c s) = c"
| "cell_of (SetFontStyle c s) = c"
| "cell_of (SetFontLine c s) = c"
| "cell_of (SetFontSize c s) = c"

fun is_write :: "'c event \<Rightarrow> bool" where
  "is_write (Compute c f) = False"
| "is_write (Digest c s) = False"
| "is_write e = True"

type_synonym cell = "nat \<times> nat"

text \<open>The body of the two nested loops of \<open>randomColour\<close>, for the cell \<open>c\<close> holding \<open>cellValue\<close>.\<close>

definition randomColour_cell :: "cell \<Rightarrow> jsval \<Rightarrow> cell event list" where
  "randomColour_cell c cellValue =
     (let (h1, backgroundColor) = getColorFromValue cellValue;
          (h2, textColor) = getContrastColor backgroundColor
      in [Compute c GetColorFromValue] @ map (Digest c) h1
         @ [Compute c GetContrastColor] @ map (Digest c) h2
         @ [SetBackground c backgroundColor, SetFontColor c textColor])"

text \<open>
  \<open>for i < values.length, for j < values[i].length\<close>, the cell being
  \<open>range.getCell(i + 1, j + 1)\<close>; \<open>values\<close> is what \<open>range.getValues()\<close> returned.
\<close>

definition each_cell :: "(cell \<Rightarrow> jsval \<Rightarrow> cell event list) \<Rightarrow> jsval list list \<Rightarrow> cell event list" where
  "each_cell body values =
     concat (map (\<lambda>i. concat (map (\<lambda>j. body (i + 1, j + 1) (values ! i ! j))
                                     [0..<length (values ! i)]))
                 [0..<length values])"

definition randomColour :: "jsval list list \<Rightarrow> cell event list" where
  "randomColour values = each_cell randomColour_cell values"

text \<open>
  The loop body of \<open>randomFormat\<close>. The summary strings it builds (\<open>formatDesc\<close>,
  \<open>formatString\<close>) are local and unused; the last call recomputes the background colour
  and drops it. \<open>randomFormat\<close> first runs \<open>randomColour\<close>, which reads the values of
  the same active range again; no write in between changes a value.
\<close>

definition randomFormat_cell :: "cell \<Rightarrow> jsval \<Rightarrow> cell event list" where
  "randomFormat_cell c cellValue =
     (let (h1, formatting) = getRandomFormatting cellValue;
          (h2, backgroundColor) = getColorFromValue cellValue
      in [Compute c GetRandomFormatting] @ map (Digest c) h1
         @ [SetFontWeight c (if bold formatting then ''bold'' else ''normal''),
            SetFontStyle c (if italic formatting then ''italic'' else ''normal''),
            SetFontLine c (if underline formatting then ''underline'' else ''none'')]
         @ [Compute c GetColorFromValue] @ map (Digest c) h2)"

definition randomFormat :: "jsval list list \<Rightarrow> cell event list" where
  "randomFormat values = randomColour values @ each_cell randomFormat_cell values"

text \<open>
  Orderings between computing and writing. \<open>need e\<close> lists the style functions that
  must have been called for the cell of \<open>e\<close> before \<open>e\<close> happens; \<open>seen\<close> is the trace
  so far.
\<close>

fun writes_follow :: "('c event \<Rightarrow> computation list) \<Rightarrow> 'c event list \<Rightarrow> 'c event list \<Rightarrow> bool" where
  "writes_follow need seen [] = True"
| "writes_follow need seen (e # es) =
     ((\<forall>f \<in> set (need e). Compute (cell_of e) f \<in> set seen)
      \<and> writes_follow need (seen @ [e]) es)"

text \<open>
  The whole bundle first: every write to a cell comes after the calls that compute its
  background colour, its text colour and its emphasis triple.
\<close>

definition whole_bundle :: "'c event \<Rightarrow> computation list" where
  "whole_bundle e =
     (if is_write e then [GetColorFromValue, GetContrastColor, GetRandomFormatting] else [])"

text \<open>
  Pass by pass: a colour write comes after both colour computations of its cell, an
  emphasis write after the computation of the emphasis triple.
\<close>

fun own_pass :: "'c event \<Rightarrow> computation list" where
  "own_pass (SetBackground c s) = [GetColorFromValue, GetContrastColor]"
| "own_pass (SetFontColor c s) = [GetColorFromValue, GetContrastColor]"
| "own_pass (SetFontWeight c s) = [GetRandomFormatting]"
| "own_pass (SetFontStyle c s) = [GetRandomFormatting]"
| "own_pass (SetFontLine c s) = [GetRandomFormatting]"
| "own_pass e = []"

text \<open>
  The emphasis as a second pass: the emphasis triple of a cell is computed only after the
  background and the text colour of that cell have been written, and no colour is
  written once an emphasis triple has been computed.
\<close>

fun is_background_of :: "'c \<Rightarrow> 'c event \<Rightarrow> bool" where
  "is_background_of c (SetBackground c' s) = (c' = c)"
| "is_background_of c e = False"

fun is_font_colour_of :: "'c \<Rightarrow> 'c event \<Rightarrow> bool" where
  "is_font_colour_of c (SetFontColor c' s) = (c' = c)"
| "is_font_colour_of c e = False"

fun is_colour_write :: "'c event \<Rightarrow> bool" where
  "is_colour_write (SetBackground c s) = True"
| "is_colour_write (SetFontColor c s) = True"
| "is_colour_write e = False"

fun is_emphasis_computation :: "'c event \<Rightarrow> bool" where
  "is_emphasis_computation (Compute c f) = (f = GetRandomFormatting)"
| "is_emphasis_computation e = False"

fun emphasis_in_second_pass :: "'c event list \<Rightarrow> 'c event list \<Rightarrow> bool" where
  "emphasis_in_second_pass seen [] = True"
| "emphasis_in_second_pass seen (e # es) =
     ((is_emphasis_computation e \<longrightarrow>
         list_ex (is_background_of (cell_of e)) seen \<and> list_ex (is_font_colour_of (cell_of e)) seen)
      \<and> (is_colour_write e \<longrightarrow> \<not> list_ex is_emphasis_computation seen)
      \<and> emphasis_in_second_pass (seen @ [e]) es)"

section \<open>The continuous pipeline (the utility file)\<close>

definition charCodes :: "string \<Rightarrow> int list" where
  "charCodes str = map of_char str"

text \<open>One round of the loop: \<open>hash = ((hash << 5) - hash) + char; hash = hash & hash\<close>.\<close>

definition hash_step :: "int \<Rightarrow> int \<Rightarrow> int" where
  "hash_step hash char = (let hash' = (js_shl hash 5 - hash) + char in js_bitand hash' hash')"

definition hash_loop :: "int list \<Rightarrow> int" where
  "hash_loop cs = foldl hash_step 0 cs"

text \<open>
  The rolling hash in the words of the specification: \<open>hash = hash*31 + charCode\<close>,
  wrapped to signed 32 bits at each step, then the absolute value.
\<close>

definition spec_rolling_hash :: "int list \<Rightarrow> int" where
  "spec_rolling_hash cs = \<bar>foldl (\<lambda>hash c. to_int32 (hash * 31 + c)) 0 cs\<bar>"

text \<open>JavaScript's \<open>%\<close> takes the sign of the dividend.\<close>

definition js_rem :: "int \<Rightarrow> int \<Rightarrow> int" where
  "js_rem a b = sgn a * (\<bar>a\<bar> mod \<bar>b\<bar>)"

text \<open>The template string \<open>hsl(${hue}, ${saturation}%, ${lightness}%)\<close>.\<close>

definition hsl :: "int \<Rightarrow> int \<Rightarrow> int \<Rightarrow> string" where
  "hsl hue saturation lightness =
     ''hsl('' @ string_of_int hue @ '', '' @ string_of_int saturation @ ''%, ''
       @ string_of_int lightness @ ''%)''"

text \<open>
  The first half of \<open>generateColourFromValue\<close>: the string form (\<open>value.toString()\<close>),
  the loop over its characters and \<open>Math.abs\<close>. This is the hash the generator computes
  for a value.
\<close>

definition valueHash :: "jsval \<Rightarrow> error + int" where
  "valueHash v =
     (case toString_js v of
        Inl e \<Rightarrow> Inl e
      | Inr str \<Rightarrow> Inr \<bar>hash_loop (charCodes str)\<bar>)"

definition generateColourFromValue :: "jsval \<Rightarrow> string \<Rightarrow> error + string" where
  "generateColourFromValue v type =
     (case valueHash v of
        Inl e \<Rightarrow> Inl e
      | Inr hash \<Rightarrow>
          if type = ''background'' then
            Inr (hsl (js_rem hash 360) (70 + js_rem hash 30) (45 + js_rem hash 20))
          else
            Inr (hsl (js_rem (hash + 180) 360) (80 + js_rem hash 20)
                     (if js_rem hash 2 = 0 then 15 else 85)))"

subsection \<open>The callers of the generator\<close>

text \<open>
  The host: the sheets of the active spreadsheet by name (each a map from cell to
  value), and the trace of what has been done to it.
\<close>

record 'c host =
  sheets :: "string \<Rightarrow> ('c \<Rightarrow> jsval) option"
  trace :: "'c event list"

record options =
  opt_bold :: "bool option"
  opt_italic :: "bool option"
  opt_fontSize :: "string option"

definition emit :: "'c event list \<Rightarrow> 'c host \<Rightarrow> 'c host" where
  "emit es h = h\<lparr>trace := trace h @ es\<rparr>"

definition setValue :: "string \<Rightarrow> 'c \<Rightarrow> jsval \<Rightarrow> 'c host \<Rightarrow> 'c host" where
  "setValue sheetName c v h =
     (case sheets h sheetName of
        None \<Rightarrow> h
      | Some cells \<Rightarrow> h\<lparr>sheets := (sheets h)(sheetName \<mapsto> cells(c := v)),
                          trace := trace h @ [SetValue c v]\<rparr>)"

text \<open>
  A call returns the exception it threw, if any, and the host as it is then.
  \<open>SetFontSize\<close> carries \<open>options.fontSize\<close>, which the script hands over through
  \<open>parseInt\<close>.
\<close>

definition colourCellByValueRandom ::
  "string \<Rightarrow> 'c \<Rightarrow> jsval \<Rightarrow> options \<Rightarrow> 'c host \<Rightarrow> error option \<times> 'c host" where
  "colourCellByValueRandom sheetName cellAddress v opts h =
     (case sheets h sheetName of
        None \<Rightarrow> (Some (SheetNotFound sheetName), h)
      | Some cells \<Rightarrow>
          let h1 = (if v \<noteq> JUndefined \<and> v \<noteq> JNull \<and> cells cellAddress \<noteq> v
                    then setValue sheetName cellAddress v h else h);
              h2 = emit [Compute cellAddress GenerateColourFromValue] h1
          in case generateColourFromValue v ''background'' of
               Inl e \<Rightarrow> (Some e, h2)
             | Inr backgroundColour \<Rightarrow>
                 let h3 = emit [Compute cellAddress GenerateColourFromValue] h2
                 in case generateColourFromValue v ''foreground'' of
                      Inl e \<Rightarrow> (Some e, h3)
                    | Inr foregroundColour \<Rightarrow>
                        (None,
                         emit ([SetBackground cellAddress backgroundColour,
                                SetFontColor cellAddress foregroundColour]
                               @ (case opt_bold opts of
                                    None \<Rightarrow> []
                                  | Some b \<Rightarrow> [SetFontWeight cellAddress (if b then ''bold'' else ''normal'')])
                               @ (case opt_italic opts of
                                    None \<Rightarrow> []
                                  | Some b \<Rightarrow> [SetFontStyle cellAddress (if b then ''italic'' else ''normal'')])
                               @ (case opt_fontSize opts of
                                    None \<Rightarrow> []
                                  | Some s \<Rightarrow> if s = [] then [] else [SetFontSize cellAddress s]))
                              h3))"

text \<open>\<open>forEach\<close> with a callback that may throw: the first exception ends the iteration.\<close>

fun forEach :: "('a \<Rightarrow> 'c host \<Rightarrow> error option \<times> 'c host) \<Rightarrow> 'a list \<Rightarrow> 'c host \<Rightarrow> error option \<times> 'c host" where
  "forEach f [] h = (None, h)"
| "forEach f (x # xs) h =
     (case f x h of
        (Some e, h') \<Rightarrow> (Some e, h')
      | (None, h') \<Rightarrow> forEach f xs h')"

text \<open>
  The range is given by the addresses of its cells, row by row (what
  \<open>rangeObj.getCell(rowIndex + 1, colIndex + 1).getA1Notation()\<close> returns); the values
  are those read by \<open>getValues\<close> before the iteration starts.
\<close>

definition colourRangeByValueRandom ::
  "string \<Rightarrow> 'c list list \<Rightarrow> options \<Rightarrow> 'c host \<Rightarrow> error option \<times> 'c host" where
  "colourRangeByValueRandom sheetName rangeCells opts h =
     (case sheets h sheetName of
        None \<Rightarrow> (Some (SheetNotFound sheetName), h)
      | Some cells \<Rightarrow>
          forEach (\<lambda>row.
            forEach (\<lambda>cellAddress h'.
              let cellValue = cells cellAddress in
              if cellValue \<noteq> JNull \<and> cellValue \<noteq> JUndefined \<and> cellValue \<noteq> JStr []
              then colourCellByValueRandom sheetName cellAddress cellValue opts h'
              else (None, h')) row) rangeCells h)"

text \<open>
  What \<open>colourCellRandom\<close> returns: a message, or \<open>"Error: "\<close> followed by the message
  of the exception it caught.
\<close>

datatype reply = Message string | ErrorMessage error

definition colourCellRandom ::
  "string \<Rightarrow> 'c \<Rightarrow> jsval \<Rightarrow> bool \<Rightarrow> 'c host \<Rightarrow> reply \<times> 'c host" where
  "colourCellRandom sheetName cellAddress v bold_opt h =
     (case sheets h sheetName of
        None \<Rightarrow> (Message ''Error: Sheet not found'', h)
      | Some cells \<Rightarrow>
          let h1 = emit [Compute cellAddress GenerateColourFromValue] h
          in case generateColourFromValue v ''background'' of
               Inl e \<Rightarrow> (ErrorMessage e, h1)
             | Inr backgroundColour \<Rightarrow>
                 let h2 = emit [Compute cellAddress GenerateColourFromValue] h1
                 in case generateColourFromValue v ''foreground'' of
                      Inl e \<Rightarrow> (ErrorMessage e, h2)
                    | Inr foregroundColour \<Rightarrow>
                        (Message ''Cell coloured with random high contrast colours'',
                         emit ([SetBackground cellAddress backgroundColour,
                                SetFontColor cellAddress foregroundColour]
                               @ (if bold_opt then [SetFontWeight cellAddress ''bold''] else []))
                              h2))"

text \<open>A host to run the callers on: one sheet, every cell holding the empty string.\<close>

definition blank_sheet :: "string \<Rightarrow> jsval" where
  "blank_sheet a = JStr []"

definition blank_host :: "string host" where
  "blank_host = \<lparr>sheets = Map.empty(''Sheet1'' \<mapsto> blank_sheet), trace = []\<rparr>"

section \<open>Properties\<close>

subsection \<open>Bytes under the 32-bit operators\<close>

lemma scast_and_ucast: "(scast (b :: 8 word) :: 32 word) AND ucast (m :: 8 word) = ucast (b AND m)"
proof (rule bit_word_eqI)
  fix n assume "n < LENGTH(32)"
  show "bit ((scast b :: 32 word) AND ucast m) n = bit (ucast (b AND m) :: 32 word) n"
  proof (cases "n < 8")
    case True
    then have "n < 7 \<or> n = 7" by arith
    then show ?thesis by (auto simp add: bit_simps min_def)
  next
    case False
    then have "\<not> bit m n" using bit_imp_le_length [of m n] by auto
    with False show ?thesis by (simp add: bit_simps)
  qed
qed

lemma sint_ucast_8_32: "sint (ucast (w :: 8 word) :: 32 word) = uint w"
proof -
  have "uint w < 2 ^ 8" using uint_bounded [of w] by simp
  then have "uint w < 2 ^ 31" by simp
  moreover have "- (2 ^ 31) \<le> (0::int)" by simp
  then have "- (2 ^ 31) \<le> uint w" using uint_nonnegative [of w] by (rule order_trans)
  ultimately show ?thesis
    by (simp add: signed_ucast_eq signed_take_bit_int_eq_self)
qed

lemma js_bitand_byte: "js_bitand (sint (b :: 8 word)) (uint (m :: 8 word)) = uint (b AND m)"
  unfolding js_bitand_def
  by (simp add: scast_and_ucast sint_ucast_8_32)

lemma js_bitand_byte_1F: "js_bitand (sint (b :: 8 word)) 0x1F = uint (b AND 0x1F)"
  using js_bitand_byte [of b "0x1F"] by simp

lemma js_bitand_byte_0F: "js_bitand (sint (b :: 8 word)) 0x0F = uint (b AND 0x0F)"
  using js_bitand_byte [of b "0x0F"] by simp

lemma js_bitand_byte_FF: "js_bitand (sint (b :: 8 word)) 0xFF = uint b"
proof -
  have "(0xFF :: 8 word) = - 1" by simp
  then have "b AND 0xFF = b" by (simp only: and.right_neutral)
  then show ?thesis using js_bitand_byte [of b "0xFF"] by simp
qed

lemma and_1F_bound: "unat ((b :: 8 word) AND 0x1F) < 32"
proof -
  have "unat (b AND 0x1F) \<le> unat (0x1F :: 8 word)"
    by (rule word_and_le1 [THEN word_le_nat_alt [THEN iffD1]])
  then show ?thesis by simp
qed

lemma and_0F_bound: "unat ((b :: 8 word) AND 0x0F) < 16"
proof -
  have "unat (b AND 0x0F) \<le> unat (0x0F :: 8 word)"
    by (rule word_and_le1 [THEN word_le_nat_alt [THEN iffD1]])
  then show ?thesis by simp
qed

lemma word_bytes_length: "length (word_bytes w) = 4"
  by (simp add: word_bytes_def)

lemma md5_length: "length (md5 bs) = 16"
  by (simp add: md5_def Let_def word_bytes_length split: prod.split)

lemma computeDigest_length: "length (computeDigest str) = 16"
  by (simp add: computeDigest_def md5_length)

lemma byte_operand_digest: "i < 16 \<Longrightarrow> byte_operand (computeDigest str) i = sint (computeDigest str ! i)"
  by (simp add: byte_operand_def computeDigest_length)

lemma pastelColors_length: "length pastelColors = 32"
  by (simp add: pastelColors_def)

lemma darkShades_length: "length darkShades = 16"
  by (simp add: darkShades_def)

lemma white_not_pastel: "''#FFFFFF'' \<notin> set pastelColors"
  by (simp add: pastelColors_def)

lemma getColorFromValue_nonempty:
  "\<not> is_empty_value v \<Longrightarrow>
     getColorFromValue v = ([String_js v], pastelColors ! unat (computeDigest (String_js v) ! 0 AND 0x1F))"
  by (simp add: getColorFromValue_def is_empty_value_def Let_def byte_operand_digest js_bitand_byte_1F)

lemma getColorFromValue_empty:
  "is_empty_value v \<Longrightarrow> getColorFromValue v = ([], ''#FFFFFF'')"
  by (auto simp add: getColorFromValue_def is_empty_value_def)

lemma getContrastColor_eq:
  "getContrastColor bg = ([bg], darkShades ! unat (computeDigest bg ! 0 AND 0x0F))"
  by (simp add: getContrastColor_def Let_def byte_operand_digest js_bitand_byte_0F)

lemma getRandomFormatting_nonempty:
  "\<not> is_empty_value v \<Longrightarrow>
     getRandomFormatting v = ([String_js v],
       \<lparr>bold = unat (computeDigest (String_js v) ! 1) < 102,
        italic = unat (computeDigest (String_js v) ! 2) < 77,
        underline = unat (computeDigest (String_js v) ! 3) < 64\<rparr>)"
  by (simp add: getRandomFormatting_def is_empty_value_def Let_def byte_operand_digest js_bitand_byte_FF
      flip: of_nat_less_iff [where 'a = int])


subsection \<open>Digests of the sample inputs, computed in the logic\<close>

lemma digest_empty: "computeDigest [] =
  [0xd4, 0x1d, 0x8c, 0xd9, 0x8f, 0x00, 0xb2, 0x04, 0xe9, 0x80, 0x09, 0x98, 0xec, 0xf8, 0x42, 0x7e]"
  by code_simp

lemma digest_abc: "computeDigest ''abc'' =
  [0x90, 0x01, 0x50, 0x98, 0x3c, 0xd2, 0x4f, 0xb0, 0xd6, 0x96, 0x3f, 0x7d, 0x28, 0xe1, 0x7f, 0x72]"
  by code_simp

lemma digest_Apple: "computeDigest ''Apple'' =
  [0x9f, 0x62, 0x90, 0xf4, 0x43, 0x6e, 0x5a, 0x23, 0x51, 0xf1, 0x2e, 0x03, 0xb6, 0x43, 0x3c, 0x3c]"
  by code_simp

lemma digest_D1B3FF: "computeDigest ''#D1B3FF'' =
  [0x78, 0xc4, 0x30, 0xba, 0x1c, 0x26, 0x21, 0xac, 0x41, 0x76, 0xc6, 0xd9, 0x3c, 0x8e, 0x38, 0x5d]"
  by code_simp

lemma digest_FFFFFF: "computeDigest ''#FFFFFF'' =
  [0x26, 0x2d, 0xa8, 0x01, 0x4d, 0x7d, 0x6e, 0x3c, 0x30, 0xcd, 0x4b, 0x6a, 0x9b, 0xb7, 0xa3, 0x38]"
  by code_simp

subsection \<open>The trace of one cell\<close>

lemma filter_concat_upt:
  assumes "\<And>i. i < n \<Longrightarrow> i \<noteq> k \<Longrightarrow> filter P (f i) = []"
  shows "filter P (concat (map f [0..<n])) = (if k < n then filter P (f k) else [])"
  using assms
proof (induction n)
  case 0
  then show ?case by simp
next
  case (Suc n)
  then have IH: "filter P (concat (map f [0..<n])) = (if k < n then filter P (f k) else [])"
    by simp
  show ?case
  proof (cases "k = n")
    case True
    then show ?thesis using IH by simp
  next
    case False
    then have "filter P (f n) = []" using Suc.prems [of n] by simp
    then show ?thesis using IH False by auto
  qed
qed

lemma each_cell_project:
  assumes body: "\<And>c v. \<forall>e \<in> set (body c v). cell_of e = c"
    and i: "i < length values" and j: "j < length (values ! i)"
  shows "filter (\<lambda>e. cell_of e = (Suc i, Suc j)) (each_cell body values) = body (Suc i, Suc j) (values ! i ! j)"
proof -
  let ?P = "\<lambda>e. cell_of e = (Suc i, Suc j)"
  let ?row = "\<lambda>r. concat (map (\<lambda>k. body (Suc r, Suc k) (values ! r ! k)) [0..<length (values ! r)])"
  have other: "filter ?P (body c v) = []" if "c \<noteq> (Suc i, Suc j)" for c v
    using body [of c v] that by (auto simp add: filter_empty_conv)
  have same: "filter ?P (body (Suc i, Suc j) v) = body (Suc i, Suc j) v" for v
    using body [of "(Suc i, Suc j)" v] by (simp add: filter_id_conv)
  have row_other: "filter ?P (?row r) = []" if "r \<noteq> i" for r
  proof -
    have "filter ?P (?row r) =
        (if length (values ! r) < length (values ! r)
         then filter ?P (body (Suc r, Suc (length (values ! r))) (values ! r ! length (values ! r))) else [])"
      by (rule filter_concat_upt) (simp add: other that)
    then show ?thesis by simp
  qed
  have "filter ?P (?row i) =
      (if j < length (values ! i) then filter ?P (body (Suc i, Suc j) (values ! i ! j)) else [])"
    by (rule filter_concat_upt) (simp add: other)
  then have row_same: "filter ?P (?row i) = body (Suc i, Suc j) (values ! i ! j)"
    using j by (simp add: same)
  have "filter ?P (concat (map ?row [0..<length values])) =
      (if i < length values then filter ?P (?row i) else [])"
    by (rule filter_concat_upt) (simp add: row_other)
  then show ?thesis using i by (simp add: each_cell_def row_same)
qed

lemma randomColour_cell_cells: "\<forall>e \<in> set (randomColour_cell c v). cell_of e = c"
  by (simp add: randomColour_cell_def Let_def split_beta ball_Un)

lemma randomFormat_cell_cells: "\<forall>e \<in> set (randomFormat_cell c v). cell_of e = c"
  by (simp add: randomFormat_cell_def Let_def split_beta ball_Un)

lemma randomColour_project:
  assumes "i < length values" and "j < length (values ! i)"
  shows "filter (\<lambda>e. cell_of e = (Suc i, Suc j)) (randomColour values) =
     randomColour_cell (Suc i, Suc j) (values ! i ! j)"
  unfolding randomColour_def using randomColour_cell_cells assms by (rule each_cell_project)

subsection \<open>Orderings on the trace\<close>

lemma writes_follow_append:
  "writes_follow need seen (xs @ ys) \<longleftrightarrow>
     writes_follow need seen xs \<and> writes_follow need (seen @ xs) ys"
  by (induction xs arbitrary: seen) auto

lemma writes_follow_digests: "writes_follow own_pass seen (map (Digest c) hs)"
  by (induction hs arbitrary: seen) auto

lemma writes_follow_concat:
  "(\<And>x seen. x \<in> set xs \<Longrightarrow> writes_follow need seen (f x)) \<Longrightarrow>
     writes_follow need seen (concat (map f xs))"
  by (induction xs arbitrary: seen) (auto simp add: writes_follow_append)

lemma writes_follow_each_cell:
  assumes "\<And>c v seen. writes_follow need seen (body c v)"
  shows "writes_follow need seen (each_cell body values)"
  unfolding each_cell_def
  by (intro writes_follow_concat assms)

lemma randomColour_cell_own_pass: "writes_follow own_pass seen (randomColour_cell c v)"
  by (simp add: randomColour_cell_def Let_def split_beta writes_follow_append writes_follow_digests)

lemma randomFormat_cell_own_pass: "writes_follow own_pass seen (randomFormat_cell c v)"
  by (simp add: randomFormat_cell_def Let_def split_beta writes_follow_append writes_follow_digests)

lemma own_pass_rejects_early_write:
  "\<not> writes_follow own_pass [] [SetFontWeight c s, Compute c GetRandomFormatting]"
  by simp

lemma second_pass_append:
  "emphasis_in_second_pass seen (xs @ ys) \<longleftrightarrow>
     emphasis_in_second_pass seen xs \<and> emphasis_in_second_pass (seen @ xs) ys"
  by (induction xs arbitrary: seen) auto

lemma second_pass_no_emphasis:
  "\<forall>e \<in> set seen \<union> set tr. \<not> is_emphasis_computation e \<Longrightarrow> emphasis_in_second_pass seen tr"
  by (induction tr arbitrary: seen) (auto simp add: list_ex_iff)

lemma second_pass_no_colour:
  assumes "\<forall>e \<in> set tr. \<not> is_colour_write e"
    and "\<forall>e \<in> set tr. is_emphasis_computation e \<longrightarrow>
           list_ex (is_background_of (cell_of e)) seen \<and> list_ex (is_font_colour_of (cell_of e)) seen"
  shows "emphasis_in_second_pass seen tr"
  using assms by (induction tr arbitrary: seen) (auto simp add: list_ex_iff)

lemma set_each_cell:
  "set (each_cell body values) =
     (\<Union>i \<in> {..<length values}. \<Union>j \<in> {..<length (values ! i)}. set (body (Suc i, Suc j) (values ! i ! j)))"
proof -
  have "set (each_cell body values) =
     (\<Union>i \<in> {0..<length values}. \<Union>j \<in> {0..<length (values ! i)}.
        set (body (Suc i, Suc j) (values ! i ! j)))"
    by (simp add: each_cell_def)
  then show ?thesis by (simp add: lessThan_atLeast0)
qed

lemma randomColour_cell_no_emphasis: "\<forall>e \<in> set (randomColour_cell c v). \<not> is_emphasis_computation e"
  by (simp add: randomColour_cell_def Let_def split_beta ball_Un)

lemma randomFormat_cell_no_colour: "\<forall>e \<in> set (randomFormat_cell c v). \<not> is_colour_write e"
  by (simp add: randomFormat_cell_def Let_def split_beta ball_Un)

lemma randomColour_cell_writes:
  "list_ex (is_background_of c) (randomColour_cell c v) \<and> list_ex (is_font_colour_of c) (randomColour_cell c v)"
  by (simp add: randomColour_cell_def Let_def split_beta)

lemma randomFormat_cell_computes: "Compute c GetRandomFormatting \<in> set (randomFormat_cell c v)"
  by (simp add: randomFormat_cell_def Let_def split_beta)

lemma randomColour_writes_in_range:
  assumes "i < length values" and "j < length (values ! i)"
  shows "list_ex (is_background_of (Suc i, Suc j)) (randomColour values) \<and>
         list_ex (is_font_colour_of (Suc i, Suc j)) (randomColour values)"
proof -
  have "set (randomColour_cell (Suc i, Suc j) (values ! i ! j)) \<subseteq> set (randomColour values)"
    using assms unfolding randomColour_def set_each_cell by blast
  then show ?thesis
    using randomColour_cell_writes [of "(Suc i, Suc j)" "values ! i ! j"]
    unfolding list_ex_iff by blast
qed

lemma randomFormat_second_pass: "emphasis_in_second_pass [] (randomFormat values)"
proof -
  have one: "emphasis_in_second_pass [] (randomColour values)"
    by (rule second_pass_no_emphasis)
       (auto simp add: randomColour_def set_each_cell randomColour_cell_no_emphasis)
  have two: "emphasis_in_second_pass (randomColour values) (each_cell randomFormat_cell values)"
  proof (rule second_pass_no_colour)
    show "\<forall>e \<in> set (each_cell randomFormat_cell values). \<not> is_colour_write e"
      by (auto simp add: set_each_cell randomFormat_cell_no_colour)
    show "\<forall>e \<in> set (each_cell randomFormat_cell values). is_emphasis_computation e \<longrightarrow>
           list_ex (is_background_of (cell_of e)) (randomColour values) \<and>
           list_ex (is_font_colour_of (cell_of e)) (randomColour values)"
    proof (intro ballI impI)
      fix e assume "e \<in> set (each_cell randomFormat_cell values)"
      then obtain i j where ij: "i < length values" "j < length (values ! i)"
        and e: "e \<in> set (randomFormat_cell (Suc i, Suc j) (values ! i ! j))"
        unfolding set_each_cell by blast
      from e have "cell_of e = (Suc i, Suc j)" using randomFormat_cell_cells by blast
      then show "list_ex (is_background_of (cell_of e)) (randomColour values) \<and>
           list_ex (is_font_colour_of (cell_of e)) (randomColour values)"
        using randomColour_writes_in_range [OF ij] by simp
    qed
  qed
  show ?thesis using one two by (simp add: randomFormat_def second_pass_append)
qed

lemma randomFormat_computes_emphasis:
  assumes "i < length values" and "j < length (values ! i)"
  shows "Compute (Suc i, Suc j) GetRandomFormatting \<in> set (randomFormat values)"
proof -
  have "Compute (Suc i, Suc j) GetRandomFormatting \<in> set (each_cell randomFormat_cell values)"
    using assms randomFormat_cell_computes [of "(Suc i, Suc j)" "values ! i ! j"]
    unfolding set_each_cell by blast
  then show ?thesis by (simp add: randomFormat_def)
qed

lemma second_pass_rejects_emphasis_first:
  "\<not> emphasis_in_second_pass []
       [Compute c GetRandomFormatting, Compute c GetColorFromValue, Compute c GetContrastColor,
        SetBackground c bg, SetFontColor c fg, SetFontWeight c w]"
  by simp

lemma randomFormat_Apple: "randomFormat [[JStr ''Apple'']] =
  [Compute (1, 1) GetColorFromValue, Digest (1, 1) ''Apple'',
   Compute (1, 1) GetContrastColor, Digest (1, 1) ''#D1B3FF'',
   SetBackground (1, 1) ''#D1B3FF'', SetFontColor (1, 1) ''#1F1F1F'',
   Compute (1, 1) GetRandomFormatting, Digest (1, 1) ''Apple'',
   SetFontWeight (1, 1) ''bold'', SetFontStyle (1, 1) ''normal'',
   SetFontLine (1, 1) ''none'', Compute (1, 1) GetColorFromValue,
   Digest (1, 1) ''Apple'']"
  by (simp add: randomFormat_def randomColour_def each_cell_def randomColour_cell_def
      randomFormat_cell_def getColorFromValue_nonempty getContrastColor_eq
      getRandomFormatting_nonempty is_empty_value_def digest_Apple digest_D1B3FF
      pastelColors_def darkShades_def)


subsection \<open>The rolling hash\<close>

lemma js_bitand_self: "js_bitand x x = to_int32 x"
  by (simp add: js_bitand_def to_int32_def)

lemma hash_step_eq: "hash_step hash c = to_int32 (hash * 31 + c)"
proof -
  have "(word_of_int (js_shl hash 5 - hash + c) :: 32 word) = word_of_int (hash * 31 + c)"
    by (simp add: js_shl_def push_bit_eq_mult)
  then show ?thesis
    by (simp add: hash_step_def Let_def js_bitand_self to_int32_def mult.commute)
qed

lemma hash_loop_eq: "hash_loop cs = foldl (\<lambda>hash c. to_int32 (hash * 31 + c)) 0 cs"
proof -
  have "hash_step = (\<lambda>hash c. to_int32 (hash * 31 + c))"
    by (intro ext) (rule hash_step_eq)
  then show ?thesis by (simp add: hash_loop_def)
qed

lemma js_rem_nonneg: "0 \<le> a \<Longrightarrow> 0 < b \<Longrightarrow> js_rem a b = a mod b"
  by (cases "a = 0") (simp_all add: js_rem_def)

lemma hash_X: "hash_loop (charCodes ''X'') = 88"
  by code_simp

lemma hash_Aa: "hash_loop (charCodes ''Aa'') = 2112"
  by code_simp


lemma valueHash_string_form:
  "v \<noteq> JNull \<Longrightarrow> v \<noteq> JUndefined \<Longrightarrow> valueHash v = Inr \<bar>hash_loop (charCodes (String_js v))\<bar>"
  by (cases v) (simp_all add: valueHash_def)

lemma hash_1: "hash_loop (charCodes ''1'') = 49"
  by code_simp

text \<open>
  Equal string forms alone are not enough: \<open>null\<close> and the text \<open>null\<close> have the same
  string form, and only the text is hashed.
\<close>

lemma equal_forms_need_the_guards:
  "String_js JNull = String_js (JStr ''null'') \<and>
   getColorFromValue JNull \<noteq> getColorFromValue (JStr ''null'') \<and>
   getRandomFormatting JNull \<noteq> getRandomFormatting (JStr ''null'') \<and>
   valueHash JNull \<noteq> valueHash (JStr ''null'')"
  by (simp add: getColorFromValue_def getRandomFormatting_def valueHash_def Let_def)

subsection \<open>Traces of the callers of the generator\<close>

lemma trace_emit: "trace (emit es h) = trace h @ es"
  by (simp add: emit_def)

lemma trace_setValue:
  "trace (setValue sheetName c v h) = trace h @ (if sheets h sheetName = None then [] else [SetValue c v])"
  by (simp add: setValue_def split: option.split)

lemma hash_loop_empty: "hash_loop (charCodes []) = 0"
  by (simp add: hash_loop_def charCodes_def)

lemma generate_empty_background: "generateColourFromValue (JStr []) ''background'' = Inr ''hsl(0, 70%, 45%)''"
  by (simp add: generateColourFromValue_def valueHash_def hash_loop_empty js_rem_def hsl_def string_of_int_def digit_char_def)

lemma generate_empty_foreground: "generateColourFromValue (JStr []) ''foreground'' = Inr ''hsl(180, 80%, 15%)''"
  by (simp add: generateColourFromValue_def valueHash_def hash_loop_empty js_rem_def hsl_def string_of_int_def digit_char_def)

lemma colourCellByValueRandom_trace:
  assumes "colourCellByValueRandom sheetName a v opts h = (r, h')"
  shows "\<exists>es. trace h' = trace h @ es \<and> (\<forall>e \<in> set es. cell_of e = a)"
proof (cases "sheets h sheetName")
  case None
  then show ?thesis using assms by (auto simp add: colourCellByValueRandom_def)
next
  case (Some cells)
  define h1 where "h1 = (if v \<noteq> JUndefined \<and> v \<noteq> JNull \<and> cells a \<noteq> v
                    then setValue sheetName a v h else h)"
  have t1: "\<exists>es. trace h1 = trace h @ es \<and> (\<forall>e \<in> set es. cell_of e = a)"
    by (simp add: h1_def trace_setValue Some)
  then obtain es1 where es1: "trace h1 = trace h @ es1" "\<forall>e \<in> set es1. cell_of e = a"
    by blast
  show ?thesis
  proof (cases "generateColourFromValue v ''background''")
    case (Inl e)
    then have "h' = emit [Compute a GenerateColourFromValue] h1"
      using assms Some by (simp add: colourCellByValueRandom_def h1_def Let_def)
    then show ?thesis using es1 by (simp add: trace_emit)
  next
    case bg: (Inr backgroundColour)
    show ?thesis
    proof (cases "generateColourFromValue v ''foreground''")
      case (Inl e)
      then have "h' = emit [Compute a GenerateColourFromValue] (emit [Compute a GenerateColourFromValue] h1)"
        using assms Some bg by (simp add: colourCellByValueRandom_def h1_def Let_def)
      then show ?thesis using es1 by (simp add: trace_emit)
    next
      case fg: (Inr foregroundColour)
      then obtain ws where "h' = emit ws (emit [Compute a GenerateColourFromValue] (emit [Compute a GenerateColourFromValue] h1))"
        and "\<forall>e \<in> set ws. cell_of e = a"
        using assms Some bg by (auto simp add: colourCellByValueRandom_def h1_def Let_def split: option.splits if_splits)
      then show ?thesis using es1 by (simp add: trace_emit ball_Un)
    qed
  qed
qed

lemma forEach_trace:
  assumes "\<And>x h r h'. x \<in> set xs \<Longrightarrow> f x h = (r, h') \<Longrightarrow>
             \<exists>es. trace h' = trace h @ es \<and> (\<forall>e \<in> set es. Q e)"
    and "forEach f xs h = (r, h')"
  shows "\<exists>es. trace h' = trace h @ es \<and> (\<forall>e \<in> set es. Q e)"
  using assms
proof (induction xs arbitrary: h)
  case Nil
  then show ?case by simp
next
  case (Cons x xs)
  obtain r1 h1 where fx: "f x h = (r1, h1)" by (cases "f x h")
  from Cons.prems(1) [of x h r1 h1] fx
  obtain es1 where es1: "trace h1 = trace h @ es1" "\<forall>e \<in> set es1. Q e" by auto
  show ?case
  proof (cases r1)
    case None
    then have "forEach f xs h1 = (r, h')" using Cons.prems(2) fx by simp
    with Cons.IH [of h1] Cons.prems(1)
    obtain es2 where "trace h' = trace h1 @ es2" "\<forall>e \<in> set es2. Q e" by (meson list.set_intros(2))
    then show ?thesis using es1 by (intro exI [of _ "es1 @ es2"]) auto
  next
    case (Some e)
    then have "h' = h1" using Cons.prems(2) fx by simp
    then show ?thesis using es1 by blast
  qed
qed

lemma colourRangeByValueRandom_trace:
  assumes "sheets h sheetName = Some cells"
    and "colourRangeByValueRandom sheetName rangeCells opts h = (r, h')"
  shows "\<exists>es. trace h' = trace h @ es \<and> (\<forall>e \<in> set es. \<not> is_empty_value (cells (cell_of e)))"
proof -
  let ?Q = "\<lambda>e. \<not> is_empty_value (cells (cell_of e))"
  let ?cell = "\<lambda>cellAddress h'.
              let cellValue = cells cellAddress in
              if cellValue \<noteq> JNull \<and> cellValue \<noteq> JUndefined \<and> cellValue \<noteq> JStr []
              then colourCellByValueRandom sheetName cellAddress cellValue opts h'
              else (None, h')"
  have cell: "\<exists>es. trace k' = trace k @ es \<and> (\<forall>e \<in> set es. ?Q e)"
    if "?cell a k = (q, k')" for a k q k'
  proof (cases "is_empty_value (cells a)")
    case True
    then have "k' = k" using that by (auto simp add: is_empty_value_def Let_def)
    then show ?thesis by simp
  next
    case False
    then have "colourCellByValueRandom sheetName a (cells a) opts k = (q, k')"
      using that by (auto simp add: is_empty_value_def Let_def)
    from colourCellByValueRandom_trace [OF this] False show ?thesis by auto
  qed
  have row: "\<exists>es. trace k' = trace k @ es \<and> (\<forall>e \<in> set es. ?Q e)"
    if "forEach ?cell row k = (q, k')" for row k q k'
    using cell that by (rule forEach_trace [where f = ?cell])
  have "forEach (\<lambda>row. forEach ?cell row) rangeCells h = (r, h')"
    using assms by (simp add: colourRangeByValueRandom_def)
  with row show ?thesis by (rule forEach_trace [where f = "\<lambda>row. forEach ?cell row"])
qed


lemma colourCellRandom_empty_string:
  assumes "sheets h sheetName = Some cells"
  shows "trace (snd (colourCellRandom sheetName a (JStr []) b h)) =
       trace h @ [Compute a GenerateColourFromValue, Compute a GenerateColourFromValue,
                  SetBackground a ''hsl(0, 70%, 45%)'', SetFontColor a ''hsl(180, 80%, 15%)'']
               @ (if b then [SetFontWeight a ''bold''] else [])"
  using assms
  by (simp add: colourCellRandom_def Let_def generate_empty_background generate_empty_foreground trace_emit)

lemma colourCellByValueRandom_empty_string:
  assumes "sheets h sheetName = Some cells"
  shows "trace (snd (colourCellByValueRandom sheetName a (JStr []) opts h)) =
       trace h @ (if cells a \<noteq> JStr [] then [SetValue a (JStr [])] else [])
         @ [Compute a GenerateColourFromValue, Compute a GenerateColourFromValue,
            SetBackground a ''hsl(0, 70%, 45%)'', SetFontColor a ''hsl(180, 80%, 15%)'']
         @ (case opt_bold opts of
              None \<Rightarrow> []
            | Some b \<Rightarrow> [SetFontWeight a (if b then ''bold'' else ''normal'')])
         @ (case opt_italic opts of
              None \<Rightarrow> []
            | Some b \<Rightarrow> [SetFontStyle a (if b then ''italic'' else ''normal'')])
         @ (case opt_fontSize opts of
              None \<Rightarrow> []
            | Some s \<Rightarrow> if s = [] then [] else [SetFontSize a s])"
  using assms
  by (simp add: colourCellByValueRandom_def Let_def generate_empty_background generate_empty_foreground
      trace_emit trace_setValue)

lemma blank_host_sheet: "sheets blank_host ''Sheet1'' = Some blank_sheet"
  by (simp add: blank_host_def)


subsection \<open>The claims\<close>

text \<open>
  Claim C1. For a value that is not empty, \<open>getColorFromValue\<close> hands \<open>String(v)\<close> to the
  digest service, takes the first of the sixteen bytes, masks it to five bits and
  returns the entry of the 32-entry pastel palette at that index.
\<close>

theorem getColorFromValue_palette_entry:
  "\<not> is_empty_value v \<Longrightarrow>
   length (computeDigest (String_js v)) = 16 \<and> length pastelColors = 32 \<and>
   unat (computeDigest (String_js v) ! 0 AND 0x1F) < 32 \<and>
   getColorFromValue v =
     ([String_js v], pastelColors ! unat (computeDigest (String_js v) ! 0 AND 0x1F))"
  by (simp add: computeDigest_length pastelColors_length and_1F_bound getColorFromValue_nonempty)

theorem getColorFromValue_palette_entry_witness:
  "\<not> is_empty_value (JStr ''Apple'') \<and>
   getColorFromValue (JStr ''Apple'') = ([''Apple''], ''#D1B3FF'')"
  using getColorFromValue_palette_entry [of "JStr ''Apple''"]
  by (simp add: is_empty_value_def digest_Apple pastelColors_def)


text \<open>
  Claim C2. For a cell whose value is not empty, \<open>randomColour\<close> derives the text colour
  from the background colour it has just computed, not from the value: it hands the
  background's hex string to the digest service, masks the first byte to four bits and
  writes the entry of the 16-entry dark-shade palette at that index.
\<close>

theorem randomColour_text_colour:
  assumes "i < length values" and "j < length (values ! i)"
    and "\<not> is_empty_value (values ! i ! j)"
  shows "let c = (i + 1, j + 1); v = values ! i ! j;
             bg = pastelColors ! unat (computeDigest (String_js v) ! 0 AND 0x1F);
             k = unat (computeDigest bg ! 0 AND 0x0F)
         in k < 16 \<and> length darkShades = 16 \<and>
            filter (\<lambda>e. cell_of e = c) (randomColour values) =
              [Compute c GetColorFromValue, Digest c (String_js v),
               Compute c GetContrastColor, Digest c bg,
               SetBackground c bg, SetFontColor c (darkShades ! k)]"
  using assms
  by (simp add: Let_def randomColour_project randomColour_cell_def getColorFromValue_nonempty
      getContrastColor_eq and_0F_bound darkShades_length)

theorem randomColour_text_colour_witness:
  "(0::nat) < length [[JStr ''Apple'']] \<and> (0::nat) < length ([[JStr ''Apple'']] ! 0) \<and>
   \<not> is_empty_value ([[JStr ''Apple'']] ! 0 ! 0) \<and>
   filter (\<lambda>e. cell_of e = (1, 1)) (randomColour [[JStr ''Apple'']]) =
     [Compute (1, 1) GetColorFromValue, Digest (1, 1) ''Apple'',
      Compute (1, 1) GetContrastColor, Digest (1, 1) ''#D1B3FF'',
      SetBackground (1, 1) ''#D1B3FF'', SetFontColor (1, 1) ''#1F1F1F'']"
  using randomColour_text_colour [of 0 "[[JStr ''Apple'']]" 0]
  by (simp add: Let_def is_empty_value_def digest_Apple digest_D1B3FF pastelColors_def darkShades_def)

text \<open>
  Claim C3. On an empty cell the discrete pipeline should give a white background, leave
  the text colour at its default and set no emphasis, without hashing the value. The
  run below shows what the script does on a range of one empty cell: the value is not
  hashed and the emphasis is off, but \<open>getContrastColor\<close> is called on \<open>#FFFFFF\<close> all the
  same and the dark shade it picks, \<open>#404040\<close>, is written as the font colour.
\<close>

theorem randomFormat_empty_cell:
  "randomFormat [[JStr []]] =
     [Compute (1, 1) GetColorFromValue, Compute (1, 1) GetContrastColor,
      Digest (1, 1) ''#FFFFFF'', SetBackground (1, 1) ''#FFFFFF'',
      SetFontColor (1, 1) ''#404040'', Compute (1, 1) GetRandomFormatting,
      SetFontWeight (1, 1) ''normal'', SetFontStyle (1, 1) ''normal'',
      SetFontLine (1, 1) ''none'', Compute (1, 1) GetColorFromValue]"
  by (simp add: randomFormat_def randomColour_def each_cell_def randomColour_cell_def
      randomFormat_cell_def getColorFromValue_empty getContrastColor_eq getRandomFormatting_def
      is_empty_value_def digest_FFFFFF darkShades_def)

text \<open>
  Claim C4. For a value that is not empty, the emphasis triple comes from bytes 1, 2 and
  3 of the digest of \<open>String(v)\<close>, each read as 0..255: bold iff byte 1 is below 102,
  italic iff byte 2 is below 77, underline iff byte 3 is below 64.
\<close>

theorem getRandomFormatting_thresholds:
  "\<not> is_empty_value v \<Longrightarrow>
   length (computeDigest (String_js v)) = 16 \<and>
   getRandomFormatting v = ([String_js v],
     \<lparr>bold = unat (computeDigest (String_js v) ! 1) < 102,
      italic = unat (computeDigest (String_js v) ! 2) < 77,
      underline = unat (computeDigest (String_js v) ! 3) < 64\<rparr>)"
  by (simp add: computeDigest_length getRandomFormatting_nonempty)

theorem getRandomFormatting_thresholds_witness:
  "\<not> is_empty_value (JStr ''Apple'') \<and>
   getRandomFormatting (JStr ''Apple'') =
     ([''Apple''], \<lparr>bold = True, italic = False, underline = False\<rparr>)"
  using getRandomFormatting_thresholds [of "JStr ''Apple''"]
  by (simp add: is_empty_value_def digest_Apple)


text \<open>
  Claim C5. The loop \<open>hash = ((hash << 5) - hash) + char; hash = hash & hash\<close> followed by
  \<open>Math.abs\<close> computes, on every sequence of character codes, the rolling hash of the
  specification: \<open>hash*31 + charCode\<close> wrapped to signed 32 bits at each step, then the
  absolute value.
\<close>

theorem hash_loop_refines_spec: "\<bar>hash_loop cs\<bar> = spec_rolling_hash cs"
  by (simp add: hash_loop_eq spec_rolling_hash_def)

theorem hash_loop_refines_spec_witness:
  "\<bar>hash_loop (charCodes ''Aa'')\<bar> = 2112 \<and> spec_rolling_hash (charCodes ''Aa'') = 2112"
  using hash_loop_refines_spec [of "charCodes ''Aa''"] hash_Aa by simp


text \<open>
  Claim C6. For every value that has a string form, the generator's foreground hue is
  the background hue plus 180, modulo 360, the background hue being the absolute value
  of the rolling hash modulo 360.
\<close>

theorem generateColourFromValue_hues:
  assumes "v \<noteq> JNull" and "v \<noteq> JUndefined"
  shows "let h = \<bar>hash_loop (charCodes (String_js v))\<bar>; bgHue = h mod 360; fgHue = (bgHue + 180) mod 360
         in 0 \<le> bgHue \<and> bgHue < 360 \<and>
            generateColourFromValue v ''background'' = Inr (hsl bgHue (70 + h mod 30) (45 + h mod 20)) \<and>
            generateColourFromValue v ''foreground'' =
              Inr (hsl fgHue (80 + h mod 20) (if h mod 2 = 0 then 15 else 85))"
proof -
  have ts: "toString_js v = Inr (String_js v)" using assms by (cases v) simp_all
  show ?thesis
    by (simp add: Let_def generateColourFromValue_def valueHash_def ts js_rem_nonneg mod_add_left_eq)
qed

theorem generateColourFromValue_hues_witness:
  "JStr ''X'' \<noteq> JNull \<and> JStr ''X'' \<noteq> JUndefined \<and>
   generateColourFromValue (JStr ''X'') ''background'' = Inr ''hsl(88, 98%, 53%)'' \<and>
   generateColourFromValue (JStr ''X'') ''foreground'' = Inr ''hsl(268, 88%, 15%)''"
  using generateColourFromValue_hues [of "JStr ''X''"]
  by (simp add: Let_def hash_X hsl_def string_of_int_def digit_char_def)


text \<open>
  Claim C7, as amended. Of the callers of the generator only \<open>colourRangeByValueRandom\<close>
  looks at the value first, and what it does for an empty cell is to skip it: every event
  it adds to the trace is for a cell whose value is not empty. \<open>colourCellRandom\<close> and
  \<open>colourCellByValueRandom\<close> have no such test: given the empty string they call the
  generator and write \<open>hsl(0, 70%, 45%)\<close> and \<open>hsl(180, 80%, 15%)\<close>.
\<close>

theorem continuous_callers_empty_values:
  assumes "sheets h sheetName = Some cells"
  shows "(\<exists>es. trace (snd (colourRangeByValueRandom sheetName rangeCells opts h)) = trace h @ es \<and>
            (\<forall>e \<in> set es. \<not> is_empty_value (cells (cell_of e)))) \<and>
         trace (snd (colourCellRandom sheetName a (JStr []) b h)) =
           trace h @ [Compute a GenerateColourFromValue, Compute a GenerateColourFromValue,
                      SetBackground a ''hsl(0, 70%, 45%)'', SetFontColor a ''hsl(180, 80%, 15%)'']
                   @ (if b then [SetFontWeight a ''bold''] else []) \<and>
         trace (snd (colourCellByValueRandom sheetName a (JStr []) opts h)) =
           trace h @ (if cells a \<noteq> JStr [] then [SetValue a (JStr [])] else [])
             @ [Compute a GenerateColourFromValue, Compute a GenerateColourFromValue,
                SetBackground a ''hsl(0, 70%, 45%)'', SetFontColor a ''hsl(180, 80%, 15%)'']
             @ (case opt_bold opts of
                  None \<Rightarrow> []
                | Some b \<Rightarrow> [SetFontWeight a (if b then ''bold'' else ''normal'')])
             @ (case opt_italic opts of
                  None \<Rightarrow> []
                | Some b \<Rightarrow> [SetFontStyle a (if b then ''italic'' else ''normal'')])
             @ (case opt_fontSize opts of
                  None \<Rightarrow> []
                | Some s \<Rightarrow> if s = [] then [] else [SetFontSize a s])"
proof -
  have "colourRangeByValueRandom sheetName rangeCells opts h =
      (fst (colourRangeByValueRandom sheetName rangeCells opts h),
       snd (colourRangeByValueRandom sheetName rangeCells opts h))"
    by simp
  from colourRangeByValueRandom_trace [OF assms this] colourCellRandom_empty_string [OF assms]
    colourCellByValueRandom_empty_string [OF assms]
  show ?thesis by blast
qed

theorem continuous_callers_empty_values_witness:
  "sheets blank_host ''Sheet1'' = Some blank_sheet \<and>
   trace (snd (colourRangeByValueRandom ''Sheet1'' [[''A1'', ''B1'']]
      \<lparr>opt_bold = Some True, opt_italic = None, opt_fontSize = None\<rparr> blank_host)) = [] \<and>
   trace (snd (colourCellRandom ''Sheet1'' ''A1'' (JStr []) False blank_host)) =
     [Compute ''A1'' GenerateColourFromValue, Compute ''A1'' GenerateColourFromValue,
      SetBackground ''A1'' ''hsl(0, 70%, 45%)'', SetFontColor ''A1'' ''hsl(180, 80%, 15%)'']"
  using continuous_callers_empty_values [OF blank_host_sheet,
      of "[[''A1'', ''B1'']]" "\<lparr>opt_bold = Some True, opt_italic = None, opt_fontSize = None\<rparr>" "''A1''" False]
  by (auto simp add: blank_host_sheet blank_sheet_def is_empty_value_def blank_host_def)

text \<open>
  Claim C7 as stated fails: \<open>colourCellRandom\<close> on the empty string calls the generator
  and writes its colours.
\<close>

theorem colourCellRandom_styles_empty_string:
  "trace (snd (colourCellRandom ''Sheet1'' ''A1'' (JStr []) True blank_host)) =
     [Compute ''A1'' GenerateColourFromValue, Compute ''A1'' GenerateColourFromValue,
      SetBackground ''A1'' ''hsl(0, 70%, 45%)'', SetFontColor ''A1'' ''hsl(180, 80%, 15%)'',
      SetFontWeight ''A1'' ''bold'']"
  by (simp add: colourCellRandom_def blank_host_def Let_def generate_empty_background
      generate_empty_foreground trace_emit)

text \<open>
  Claim C8, as amended. In \<open>randomFormat\<close> every write of a background or text colour
  comes after both colours of that cell have been computed, and every write of weight,
  style or line comes after the emphasis triple of that cell has been computed. The
  emphasis is a second pass: the triple of a cell is computed only after the background
  and the text colour of that cell have been written, no colour is written once a triple
  has been computed, and for every cell of the range the triple is computed and both
  colours are written.
\<close>

theorem randomFormat_pass_by_pass:
  "writes_follow own_pass [] (randomFormat values) \<and>
   emphasis_in_second_pass [] (randomFormat values) \<and>
   (\<forall>i < length values. \<forall>j < length (values ! i).
      Compute (i + 1, j + 1) GetRandomFormatting \<in> set (randomFormat values) \<and>
      list_ex (is_background_of (i + 1, j + 1)) (randomColour values) \<and>
      list_ex (is_font_colour_of (i + 1, j + 1)) (randomColour values))"
proof -
  have "writes_follow own_pass [] (randomFormat values)"
    by (simp add: randomFormat_def randomColour_def writes_follow_append
      writes_follow_each_cell randomColour_cell_own_pass randomFormat_cell_own_pass)
  then show ?thesis
    using randomFormat_second_pass randomFormat_computes_emphasis randomColour_writes_in_range
    by simp
qed

theorem randomFormat_pass_by_pass_witness:
  "writes_follow own_pass [] (randomFormat [[JStr ''Apple'']]) \<and>
   emphasis_in_second_pass [] (randomFormat [[JStr ''Apple'']]) \<and>
   SetBackground (1, 1) ''#D1B3FF'' \<in> set (randomFormat [[JStr ''Apple'']]) \<and>
   Compute (1, 1) GetRandomFormatting \<in> set (randomFormat [[JStr ''Apple'']])"
  using randomFormat_pass_by_pass [of "[[JStr ''Apple'']]"] by (simp add: randomFormat_Apple)

text \<open>
  Claim C8 as stated fails: the emphasis triple is computed in a second pass, after the
  colours have been written.
\<close>

theorem randomFormat_whole_bundle_counterexample:
  "\<not> writes_follow whole_bundle [] (randomFormat [[JStr ''Apple'']])"
  by (simp add: randomFormat_Apple whole_bundle_def)


text \<open>
  Claim C9, as amended. Let two values have the same string form. If neither is empty,
  \<open>getColorFromValue\<close> and \<open>getRandomFormatting\<close> compute the same MD5 digest for both,
  the digest of that string form, and return the same results. If neither is \<open>null\<close> or
  \<open>undefined\<close>, the generator computes the same rolling hash for both, the hash of that
  string form, and returns the same colour.
\<close>

theorem equal_forms_equal_digests:
  assumes "String_js v1 = String_js v2"
  shows "(\<not> is_empty_value v1 \<and> \<not> is_empty_value v2 \<longrightarrow>
            map computeDigest (fst (getColorFromValue v1)) = [computeDigest (String_js v1)] \<and>
            map computeDigest (fst (getColorFromValue v2)) = [computeDigest (String_js v1)] \<and>
            map computeDigest (fst (getRandomFormatting v1)) = map computeDigest (fst (getRandomFormatting v2)) \<and>
            getColorFromValue v1 = getColorFromValue v2 \<and>
            getRandomFormatting v1 = getRandomFormatting v2) \<and>
         (v1 \<noteq> JNull \<and> v1 \<noteq> JUndefined \<and> v2 \<noteq> JNull \<and> v2 \<noteq> JUndefined \<longrightarrow>
            valueHash v1 = Inr \<bar>hash_loop (charCodes (String_js v1))\<bar> \<and>
            valueHash v1 = valueHash v2 \<and>
            generateColourFromValue v1 type = generateColourFromValue v2 type)"
  using assms
  by (simp add: getColorFromValue_nonempty getRandomFormatting_nonempty valueHash_string_form
      generateColourFromValue_def)

theorem equal_forms_equal_digests_witness:
  "String_js (JNum 1) = String_js (JStr ''1'') \<and> JNum 1 \<noteq> JStr ''1'' \<and>
   \<not> is_empty_value (JNum 1) \<and> \<not> is_empty_value (JStr ''1'') \<and>
   getColorFromValue (JNum 1) = getColorFromValue (JStr ''1'') \<and>
   fst (getColorFromValue (JStr ''1'')) = [''1''] \<and>
   getRandomFormatting (JNum 1) = getRandomFormatting (JStr ''1'') \<and>
   valueHash (JNum 1) = valueHash (JStr ''1'') \<and> valueHash (JStr ''1'') = Inr 49 \<and>
   generateColourFromValue (JNum 1) ''background'' = generateColourFromValue (JStr ''1'') ''background''"
proof -
  have forms: "String_js (JNum 1) = String_js (JStr ''1'')"
    by (simp add: string_of_int_def digit_char_def)
  have diff: "JNum 1 \<noteq> JStr ''1''"
    by simp
  have ne1: "\<not> is_empty_value (JNum 1)" and ne2: "\<not> is_empty_value (JStr ''1'')"
    by (simp_all add: is_empty_value_def)
  have nn: "JNum 1 \<noteq> JNull \<and> JNum 1 \<noteq> JUndefined \<and> JStr ''1'' \<noteq> JNull \<and> JStr ''1'' \<noteq> JUndefined"
    by simp
  have inputs: "fst (getColorFromValue (JStr ''1'')) = [''1'']"
    using ne2 by (simp add: getColorFromValue_nonempty)
  have hash: "valueHash (JStr ''1'') = Inr 49"
    by (simp add: valueHash_def hash_1)
  show ?thesis
    using equal_forms_equal_digests [OF forms, of "''background''"] forms diff ne1 ne2 nn inputs hash
    by blast
qed

text \<open>
  Claim C9 as stated fails in the other direction: \<open>Aa\<close> and \<open>BB\<close> are different string
  forms, and the generator computes the same rolling hash for both.
\<close>

theorem rolling_hash_collision:
  "String_js (JStr ''Aa'') \<noteq> String_js (JStr ''BB'') \<and>
   \<bar>hash_loop (charCodes (String_js (JStr ''Aa'')))\<bar> = \<bar>hash_loop (charCodes (String_js (JStr ''BB'')))\<bar> \<and>
   valueHash (JStr ''Aa'') = valueHash (JStr ''BB'')"
  by code_simp

text \<open>
  Claim C10. \<open>getColorFromValue\<close> returns \<open>#FFFFFF\<close> exactly for \<open>null\<close>, \<open>undefined\<close> and
  the empty string; for every other value it returns one of the 32 pastel entries, none
  of which is \<open>#FFFFFF\<close>.
\<close>

theorem getColorFromValue_white_iff_empty:
  "(snd (getColorFromValue v) = ''#FFFFFF'' \<longleftrightarrow> v = JNull \<or> v = JUndefined \<or> v = JStr []) \<and>
   (\<not> (v = JNull \<or> v = JUndefined \<or> v = JStr []) \<longrightarrow> snd (getColorFromValue v) \<in> set pastelColors) \<and>
   ''#FFFFFF'' \<notin> set pastelColors \<and> length pastelColors = 32"
proof -
  have mem: "snd (getColorFromValue v) \<in> set pastelColors" if "\<not> is_empty_value v"
    using that and_1F_bound [of "computeDigest (String_js v) ! 0"]
    by (simp add: getColorFromValue_nonempty pastelColors_length)
  then have "snd (getColorFromValue v) \<noteq> ''#FFFFFF''" if "\<not> is_empty_value v"
    using that white_not_pastel by metis
  moreover have "snd (getColorFromValue v) = ''#FFFFFF''" if "is_empty_value v"
    using that by (simp add: getColorFromValue_empty)
  ultimately show ?thesis
    using mem white_not_pastel pastelColors_length unfolding is_empty_value_def by blast
qed

theorem getColorFromValue_white_iff_empty_witness:
  "snd (getColorFromValue JNull) = ''#FFFFFF'' \<and> snd (getColorFromValue (JStr [])) = ''#FFFFFF'' \<and>
   snd (getColorFromValue (JStr ''Apple'')) = ''#D1B3FF'' \<and> ''#D1B3FF'' \<in> set pastelColors"
  using getColorFromValue_white_iff_empty [of JNull] getColorFromValue_white_iff_empty [of "JStr []"]
    getColorFromValue_white_iff_empty [of "JStr ''Apple''"]
  by (simp add: getColorFromValue_nonempty is_empty_value_def digest_Apple pastelColors_def)

end
